theory Spec2Isabelle
  imports Main "HOL-Library.AList" "HOL-Library.Char_ord" "HOL-Library.List_Lexorder"
begin

section \<open>KEGG Pathways to OBO: the embedding of \<open>pyobo/sources/kegg/pathway.py\<close>\<close>

text \<open>
  Python strings are modelled as \<open>string\<close>, a character being a code point below 256;
  strings compare as Python compares them, character by character. Files are lists of
  lines, dictionaries are association lists in insertion order (\<open>AList.update\<close>
  overwrites a present key in place and appends an absent one, as a Python \<open>dict\<close>
  does), and every exception of the source is a value of \<open>error\<close>. Text written with
  \<open>tqdm.write\<close> is collected in a list of messages.
\<close>

subsection \<open>Exceptions\<close>

datatype error =
    ValueError_unpack
      \<comment> \<open>\<open>a, b = parts\<close> with other than two parts\<close>
  | ValueError_min_empty
      \<comment> \<open>\<open>min()\<close> of an empty sequence\<close>
  | AttributeError_None
      \<comment> \<open>\<open>None.append_relationship\<close>\<close>
  | HTTPError nat string
      \<comment> \<open>\<open>urllib.error.HTTPError\<close>: \<open>getcode()\<close> and \<open>geturl()\<close>\<close>
  | OtherError string
      \<comment> \<open>any exception that is not an \<open>HTTPError\<close>, such as its parent \<open>URLError\<close>\<close>

subsection \<open>Strings\<close>

definition isspace :: "char \<Rightarrow> bool" where
  \<comment> \<open>the code points below 256 for which \<open>str.isspace\<close> holds\<close>
  "isspace c \<longleftrightarrow> c \<in> set [CHR '' '', CHR 0x09, CHR 0x0A, CHR 0x0B, CHR 0x0C, CHR 0x0D,
                            CHR 0x1C, CHR 0x1D, CHR 0x1E, CHR 0x1F, CHR 0x85, CHR 0xA0]"

definition strip :: "string \<Rightarrow> string" where
  "strip s = rev (dropWhile isspace (rev (dropWhile isspace s)))"

definition isnumeric :: "char \<Rightarrow> bool" where
  \<comment> \<open>the code points below 256 for which \<open>str.isnumeric\<close> holds: the digits, the
      superscripts 1 to 3 and the fractions a quarter, a half and three quarters\<close>
  "isnumeric c \<longleftrightarrow> c \<in> set (''0123456789''
                              @ [CHR 0xB2, CHR 0xB3, CHR 0xB9, CHR 0xBC, CHR 0xBD, CHR 0xBE])"

definition tab :: char where
  "tab = CHR 0x09"

fun split_str :: "char \<Rightarrow> string \<Rightarrow> string list" where
  \<comment> \<open>\<open>s.split(sep)\<close> for a separator of one character\<close>
  "split_str sep [] = [[]]"
| "split_str sep (c # cs) =
     (if c = sep then [] # split_str sep cs
      else (case split_str sep cs of
              [] \<Rightarrow> [[c]]
            | p # ps \<Rightarrow> (c # p) # ps))"

fun min_of :: "nat list \<Rightarrow> error + nat" where
  \<comment> \<open>the builtin \<open>min\<close> on a sequence\<close>
  "min_of [] = Inl ValueError_min_empty"
| "min_of (x # xs) = Inr (fold min xs x)"

definition digit_char :: "nat \<Rightarrow> char" where
  "digit_char d = ''0123456789'' ! d"

fun str_nat :: "nat \<Rightarrow> string" where
  \<comment> \<open>the decimal text an f-string gives a non-negative \<open>int\<close>\<close>
  "str_nat n =
     (if n < 10 then [digit_char n]
      else str_nat (n div 10) @ [digit_char (n mod 10)])"

declare str_nat.simps [simp del]

subsection \<open>References, terms and genomes\<close>

datatype TypeDef = from_kegg_species | species_specific | from_species | has_part

record Reference =
  prefix :: string
  "identifier" :: string
  name :: "string option"

record Term =
  reference :: Reference
  relationships :: "(TypeDef \<times> Reference) list"
  species :: "string option"

text \<open>
  Modelled from the spec: \<open>Reference\<close>, \<open>Term\<close> and the methods
  \<open>append_relationship\<close> and \<open>set_species\<close> live in \<open>pyobo.struct\<close>, which is not
  among the source files. The spec gives a Reference a namespace, a code and an optional
  display name, and a Term one Reference, an ordered list of typed relationships and an
  optional species attribute holding a taxonomy identifier.
\<close>

definition Term_new :: "Reference \<Rightarrow> Term" where
  "Term_new r = \<lparr>reference = r, relationships = [], species = None\<rparr>"

definition append_relationship :: "Term \<Rightarrow> TypeDef \<Rightarrow> Reference \<Rightarrow> Term" where
  "append_relationship t td r = t\<lparr>relationships := relationships t @ [(td, r)]\<rparr>"

definition set_species :: "Term \<Rightarrow> string \<Rightarrow> Term" where
  "set_species t tax = t\<lparr>species := Some tax\<rparr>"

text \<open>
  Modelled from the spec: \<open>KEGGGenome\<close> lives in \<open>pyobo.sources.kegg.genome\<close>, which
  is not among the source files. The spec gives a genome an organism code, a display
  name, an optional taxonomy id and a method to obtain its own Reference. The source's
  attributes \<open>identifier\<close> and \<open>name\<close> are \<open>kegg_identifier\<close> and \<open>kegg_name\<close> here,
  since a Reference has fields of the same names.
\<close>

record KEGGGenome =
  kegg_identifier :: string
  kegg_name :: string
  taxonomy_id :: "string option"

definition get_reference :: "KEGGGenome \<Rightarrow> Reference" where
  "get_reference g =
     \<lparr>prefix = ''kegg.genome'', identifier = kegg_identifier g, name = Some (kegg_name g)\<rparr>"

text \<open>
  The constant \<open>KEGG_PATHWAY_PREFIX\<close> is imported from \<open>pyobo.sources.kegg.api\<close>, which
  is not among the source files; its value is the one the source's own message
  \<open>could not find kegg.pathway:\<close> spells out. No result below depends on the value.
\<close>

definition KEGG_PATHWAY_PREFIX :: string where
  "KEGG_PATHWAY_PREFIX = ''kegg.pathway''"

subsection \<open>\<open>_get_link_pathway_map\<close>\<close>

text \<open>Lines 60 and 61: the two fields of one line of the link file.\<close>

definition link_line :: "string \<Rightarrow> error + (string \<times> string)" where
  "link_line line =
     (case split_str tab (strip line) of
        [protein, pathway] \<Rightarrow> Inr (protein, drop (length ''path:'') pathway)
      | _ \<Rightarrow> Inl ValueError_unpack)"

text \<open>
  Lines 57 to 62: the loop over the lines; \<open>rv\<close> is the \<open>defaultdict(list)\<close>. Line 62
  is \<open>rv[pathway].append(pathway)\<close>: \<open>protein\<close> is not used.
\<close>

definition defaultdict_get :: "(string \<times> string list) list \<Rightarrow> string \<Rightarrow> string list" where
  "defaultdict_get rv k = (case map_of rv k of None \<Rightarrow> [] | Some v \<Rightarrow> v)"

fun link_lines :: "string list \<Rightarrow> (string \<times> string list) list
    \<Rightarrow> error + (string \<times> string list) list" where
  "link_lines [] rv = Inr rv"
| "link_lines (line # lines) rv =
     (case link_line line of
        Inl e \<Rightarrow> Inl e
      | Inr (protein, pathway) \<Rightarrow>
          link_lines lines (AList.update pathway (defaultdict_get rv pathway @ [pathway]) rv))"

text \<open>Line 63: every list sorted, the keys in their order of insertion.\<close>

definition get_link_pathway_map :: "string list \<Rightarrow> error + (string \<times> string list) list" where
  "get_link_pathway_map lines =
     (case link_lines lines [] of
        Inl e \<Rightarrow> Inl e
      | Inr rv \<Rightarrow> Inr (map (\<lambda>(k, v). (k, sort v)) rv))"

subsection \<open>\<open>_iter_genome_terms\<close>\<close>

text \<open>Line 91: the index of the first numeric character.\<close>

definition first_numeric :: "string \<Rightarrow> error + nat" where
  "first_numeric pathway_id =
     min_of (map fst (filter (\<lambda>(i, e). isnumeric e) (enumerate 0 pathway_id)))"

text \<open>
  Lines 91, 92 and 103: the identifier of the reference map, \<open>map\<close> followed by the
  code from its first numeric character on.
\<close>

definition generic_map_code :: "string \<Rightarrow> error + string" where
  "generic_map_code pathway_id =
     (case first_numeric pathway_id of
        Inl e \<Rightarrow> Inl e
      | Inr start \<Rightarrow> Inr (''map'' @ drop start pathway_id))"

text \<open>Lines 94 to 110: the Term of one listing line.\<close>

definition listing_term :: "KEGGGenome \<Rightarrow> string \<Rightarrow> string \<Rightarrow> string \<Rightarrow> Term" where
  "listing_term kegg_genome pathway_id nm map_id =
     (let term0 = Term_new
            \<lparr>prefix = KEGG_PATHWAY_PREFIX, identifier = pathway_id, name = Some nm\<rparr>;
          term1 = append_relationship term0 species_specific
            \<lparr>prefix = KEGG_PATHWAY_PREFIX, identifier = map_id, name = None\<rparr>;
          term2 = append_relationship term1 from_kegg_species (get_reference kegg_genome)
      in (case taxonomy_id kegg_genome of
            None \<Rightarrow> term2
          | Some tax \<Rightarrow> set_species term2 tax))"

text \<open>Lines 87 to 110: the body of the loop, giving the key and the Term of one line.\<close>

definition listing_line :: "KEGGGenome \<Rightarrow> string \<Rightarrow> error + (string \<times> Term)" where
  "listing_line kegg_genome line =
     (case map strip (split_str tab (strip line)) of
        [pathway_id0, nm] \<Rightarrow>
          (let pathway_id = drop (length ''path:'') pathway_id0
           in (case generic_map_code pathway_id of
                 Inl e \<Rightarrow> Inl e
               | Inr map_id \<Rightarrow>
                   Inr (pathway_id, listing_term kegg_genome pathway_id nm map_id)))
      | _ \<Rightarrow> Inl ValueError_unpack)"

text \<open>Lines 86 to 110: the loop over the stripped lines, filling the dictionary \<open>terms\<close>.\<close>

fun listing_lines :: "KEGGGenome \<Rightarrow> string list \<Rightarrow> (string \<times> Term) list
    \<Rightarrow> error + (string \<times> Term) list" where
  "listing_lines kegg_genome [] terms = Inr terms"
| "listing_lines kegg_genome (line # lines) terms =
     (case listing_line kegg_genome line of
        Inl e \<Rightarrow> Inl e
      | Inr (pathway_id, term) \<Rightarrow>
          listing_lines kegg_genome lines (AList.update pathway_id term terms))"

text \<open>
  Lines 116 to 120: the inner loop appends to the object \<open>terms.get\<close> returned, which is
  \<open>None\<close> for an absent key.
\<close>

fun append_parts :: "Term option \<Rightarrow> string list \<Rightarrow> error + Term option" where
  "append_parts term [] = Inr term"
| "append_parts None (protein_id # protein_ids) = Inl AttributeError_None"
| "append_parts (Some term) (protein_id # protein_ids) =
     append_parts
       (Some (append_relationship term has_part
          \<lparr>prefix = ''kegg.genes'', identifier = protein_id, name = None\<rparr>))
       protein_ids"

text \<open>
  Lines 112 to 120: the loop over the items of the link map. The result carries the
  messages written so far, also when the loop raises.
\<close>

fun merge_items :: "(string \<times> string list) list \<Rightarrow> (string \<times> Term) list \<Rightarrow> string list
    \<Rightarrow> (error + (string \<times> Term) list) \<times> string list" where
  "merge_items [] terms written = (Inr terms, written)"
| "merge_items ((pathway_id, protein_ids) # items) terms written =
     (let term = map_of terms pathway_id;
          written' = (if term = None
                      then written @ [''could not find kegg.pathway:'' @ pathway_id]
                      else written)
      in (case append_parts term protein_ids of
            Inl e \<Rightarrow> (Inl e, written')
          | Inr None \<Rightarrow> merge_items items terms written'
          | Inr (Some term') \<Rightarrow>
              merge_items items (AList.update pathway_id term' terms) written'))"

text \<open>
  Lines 83 to 122: the listing is read and parsed first, then the link file; the Terms
  are yielded only at the end, so a run that raises yields none.
\<close>

definition iter_genome_terms :: "string list \<Rightarrow> string list \<Rightarrow> KEGGGenome
    \<Rightarrow> (error + Term list) \<times> string list" where
  "iter_genome_terms list_pathway_lines link_pathway_lines kegg_genome =
     (case listing_lines kegg_genome (map strip list_pathway_lines) [] of
        Inl e \<Rightarrow> (Inl e, [])
      | Inr terms \<Rightarrow>
          (case get_link_pathway_map link_pathway_lines of
             Inl e \<Rightarrow> (Inl e, [])
           | Inr link_map \<Rightarrow>
               (case merge_items link_map terms [] of
                  (Inl e, written) \<Rightarrow> (Inl e, written)
                | (Inr terms', written) \<Rightarrow> (Inr (map snd terms'), written))))"

subsection \<open>\<open>_iter_map_terms\<close>\<close>

text \<open>
  The catalog is the list of the items of the dictionary \<open>ensure_list_pathways()\<close>
  returns, in the order the dictionary iterates.
\<close>

definition iter_map_terms :: "(string \<times> string) list \<Rightarrow> Term list" where
  "iter_map_terms catalog =
     map (\<lambda>(ident, nm).
            Term_new \<lparr>prefix = KEGG_PATHWAY_PREFIX, identifier = ident, name = Some nm\<rparr>)
         catalog"

subsection \<open>\<open>iter_kegg_pathway_paths\<close>\<close>

text \<open>
  A generator run to its end: what it yielded, what it wrote with \<open>tqdm.write\<close>, and
  the exception that ended it, if one did.
\<close>

record 'a generated =
  yielded :: "'a list"
  written :: "string list"
  raised :: "error option"

text \<open>Lines 134 to 138: the message for a failed download.\<close>

definition download_message :: "nat \<Rightarrow> string \<Rightarrow> KEGGGenome \<Rightarrow> string" where
  "download_message code url kegg_genome =
     (let msg = ''[HTTP '' @ str_nat code @ ''] Error downloading ''
                @ kegg_identifier kegg_genome @ '' ('' @ kegg_name kegg_genome
      in (case taxonomy_id kegg_genome of
            None \<Rightarrow> msg @ ''): '' @ url
          | Some tax \<Rightarrow> msg @ ''; taxonomy:'' @ tax @ ''): '' @ url))"

datatype paths_step =
    Yield "KEGGGenome \<times> string \<times> string"
  | Skip "string list"
  | Raise error

text \<open>Lines 131 to 139: the handler catches \<open>HTTPError\<close> only; anything else propagates.\<close>

fun except_HTTPError :: "error \<Rightarrow> KEGGGenome \<Rightarrow> paths_step" where
  "except_HTTPError (HTTPError code url) kegg_genome =
     Skip (if code \<noteq> 404 then [download_message code url kegg_genome] else [])"
| "except_HTTPError e kegg_genome = Raise e"

text \<open>
  Lines 128 to 141: the body of the loop for one genome. The two fetchers
  \<open>ensure_list_pathway_genome\<close> and \<open>ensure_link_pathway_genome\<close> are parameters: they
  live in \<open>pyobo.sources.kegg.api\<close>, and return a path or raise.
\<close>

definition paths_of_genome :: "(string \<Rightarrow> error + string) \<Rightarrow> (string \<Rightarrow> error + string)
    \<Rightarrow> KEGGGenome \<Rightarrow> paths_step" where
  "paths_of_genome ensure_list_pathway_genome ensure_link_pathway_genome kegg_genome =
     (case ensure_list_pathway_genome (kegg_identifier kegg_genome) of
        Inl e \<Rightarrow> except_HTTPError e kegg_genome
      | Inr list_pathway_path \<Rightarrow>
          (case ensure_link_pathway_genome (kegg_identifier kegg_genome) of
             Inl e \<Rightarrow> except_HTTPError e kegg_genome
           | Inr link_pathway_path \<Rightarrow> Yield (kegg_genome, list_pathway_path, link_pathway_path)))"

fun iter_kegg_pathway_paths :: "(string \<Rightarrow> error + string) \<Rightarrow> (string \<Rightarrow> error + string)
    \<Rightarrow> KEGGGenome list \<Rightarrow> (KEGGGenome \<times> string \<times> string) generated" where
  "iter_kegg_pathway_paths ensure_list ensure_link [] =
     \<lparr>yielded = [], written = [], raised = None\<rparr>"
| "iter_kegg_pathway_paths ensure_list ensure_link (kegg_genome # genomes) =
     (case paths_of_genome ensure_list ensure_link kegg_genome of
        Raise e \<Rightarrow> \<lparr>yielded = [], written = [], raised = Some e\<rparr>
      | Skip msgs \<Rightarrow>
          (let r = iter_kegg_pathway_paths ensure_list ensure_link genomes
           in r\<lparr>written := msgs @ written r\<rparr>)
      | Yield paths \<Rightarrow>
          (let r = iter_kegg_pathway_paths ensure_list ensure_link genomes
           in r\<lparr>yielded := paths # yielded r\<rparr>))"

subsection \<open>\<open>iter_terms\<close>\<close>

text \<open>
  Lines 48 to 53: the loop pulls one genome's paths from the generator above, runs
  \<open>_iter_genome_terms\<close> on the two files, and only then pulls the next genome.
  \<open>read_lines\<close> gives the lines of the file at a path.
\<close>

fun iter_genomes_terms :: "(string \<Rightarrow> error + string) \<Rightarrow> (string \<Rightarrow> error + string)
    \<Rightarrow> (string \<Rightarrow> string list) \<Rightarrow> KEGGGenome list \<Rightarrow> Term generated" where
  "iter_genomes_terms ensure_list ensure_link read_lines [] =
     \<lparr>yielded = [], written = [], raised = None\<rparr>"
| "iter_genomes_terms ensure_list ensure_link read_lines (g # genomes) =
     (case paths_of_genome ensure_list ensure_link g of
        Raise e \<Rightarrow> \<lparr>yielded = [], written = [], raised = Some e\<rparr>
      | Skip msgs \<Rightarrow>
          (let r = iter_genomes_terms ensure_list ensure_link read_lines genomes
           in r\<lparr>written := msgs @ written r\<rparr>)
      | Yield (kegg_genome, list_pathway_path, link_pathway_path) \<Rightarrow>
          (case iter_genome_terms (read_lines list_pathway_path) (read_lines link_pathway_path)
                  kegg_genome of
             (Inl e, msgs) \<Rightarrow> \<lparr>yielded = [], written = msgs, raised = Some e\<rparr>
           | (Inr terms, msgs) \<Rightarrow>
               (let r = iter_genomes_terms ensure_list ensure_link read_lines genomes
                in r\<lparr>yielded := terms @ yielded r, written := msgs @ written r\<rparr>)))"

definition iter_terms :: "(string \<times> string) list \<Rightarrow> (string \<Rightarrow> error + string)
    \<Rightarrow> (string \<Rightarrow> error + string) \<Rightarrow> (string \<Rightarrow> string list) \<Rightarrow> KEGGGenome list
    \<Rightarrow> Term generated" where
  "iter_terms catalog ensure_list ensure_link read_lines genomes =
     (let r = iter_genomes_terms ensure_list ensure_link read_lines genomes
      in r\<lparr>yielded := iter_map_terms catalog @ yielded r\<rparr>)"

section \<open>Notions used in the statements\<close>

text \<open>The relationships of one kind on a Term, in their order.\<close>

definition edges_of :: "TypeDef \<Rightarrow> Term \<Rightarrow> (TypeDef \<times> Reference) list" where
  "edges_of td t = filter (\<lambda>(td', r). td' = td) (relationships t)"

text \<open>The edge line 117 appends for one element of \<open>protein_ids\<close>.\<close>

definition part_edge :: "string \<Rightarrow> TypeDef \<times> Reference" where
  "part_edge protein_id =
     (has_part, \<lparr>prefix = ''kegg.genes'', identifier = protein_id, name = None\<rparr>)"

definition with_parts :: "Term \<Rightarrow> string list \<Rightarrow> Term" where
  "with_parts t ps = t\<lparr>relationships := relationships t @ map part_edge ps\<rparr>"

definition parts_of :: "(string \<times> string list) list \<Rightarrow> string \<Rightarrow> string list" where
  "parts_of M k = concat (map snd (filter (\<lambda>kv. fst kv = k) M))"

text \<open>A line of the link file names the pathway \<open>k\<close>.\<close>

definition names_pathway :: "string \<Rightarrow> string \<Rightarrow> bool" where
  "names_pathway k line =
     (case link_line line of Inl e \<Rightarrow> False | Inr (protein, pathway) \<Rightarrow> pathway = k)"

text \<open>The key a line of the listing file is stored under, if the line parses.\<close>

definition listing_key :: "KEGGGenome \<Rightarrow> string \<Rightarrow> string option" where
  "listing_key g line = (case listing_line g line of Inl e \<Rightarrow> None | Inr (k, t) \<Rightarrow> Some k)"

subsection \<open>Example data\<close>

text \<open>A line of a two-column, tab-separated file as iterating the file gives it.\<close>

definition tsv_line :: "string \<Rightarrow> string \<Rightarrow> string" where
  "tsv_line a b = a @ [tab] @ b @ [CHR 0x0A]"

definition hsa :: KEGGGenome where
  "hsa = \<lparr>kegg_identifier = ''hsa'', kegg_name = ''Homo sapiens'', taxonomy_id = Some ''9606''\<rparr>"

text \<open>A pathway Term of the genome \<open>hsa\<close> with the given \<open>has_part\<close> targets.\<close>

definition hsa_term :: "string \<Rightarrow> string \<Rightarrow> string \<Rightarrow> string list \<Rightarrow> Term" where
  "hsa_term ident nm map_id parts =
     \<lparr>reference = \<lparr>prefix = ''kegg.pathway'', identifier = ident, name = Some nm\<rparr>,
      relationships =
        [(species_specific, \<lparr>prefix = ''kegg.pathway'', identifier = map_id, name = None\<rparr>),
         (from_kegg_species,
          \<lparr>prefix = ''kegg.genome'', identifier = ''hsa'', name = Some ''Homo sapiens''\<rparr>)]
        @ map part_edge parts,
      species = Some ''9606''\<rparr>"

subsection \<open>Notions for the driver and the assembler\<close>

text \<open>
  The Terms one triple of the driver contributes, what one genome makes the driver yield
  and write, the exception the two fetches of a genome raise (the listing is fetched
  first), a fetch that succeeds or raises an \<open>HTTPError\<close>, and a message that
  includes a text.
\<close>

definition terms_of :: "(error + Term list) \<times> string list \<Rightarrow> Term list" where
  "terms_of r = (case fst r of Inl e \<Rightarrow> [] | Inr terms \<Rightarrow> terms)"

definition joiner_terms :: "(string \<Rightarrow> string list) \<Rightarrow> KEGGGenome \<times> string \<times> string \<Rightarrow> Term list" where
  "joiner_terms read_lines paths =
     (case paths of (kegg_genome, list_pathway_path, link_pathway_path) \<Rightarrow>
        terms_of (iter_genome_terms (read_lines list_pathway_path)
                    (read_lines link_pathway_path) kegg_genome))"

definition yield_of :: "(string \<Rightarrow> error + string) \<Rightarrow> (string \<Rightarrow> error + string) \<Rightarrow> KEGGGenome
    \<Rightarrow> (KEGGGenome \<times> string \<times> string) list" where
  "yield_of el ek g = (case paths_of_genome el ek g of Yield paths \<Rightarrow> [paths] | _ \<Rightarrow> [])"

definition report_of :: "(string \<Rightarrow> error + string) \<Rightarrow> (string \<Rightarrow> error + string) \<Rightarrow> KEGGGenome
    \<Rightarrow> string list" where
  "report_of el ek g = (case paths_of_genome el ek g of Skip msgs \<Rightarrow> msgs | _ \<Rightarrow> [])"

definition fetch_raises :: "(string \<Rightarrow> error + string) \<Rightarrow> (string \<Rightarrow> error + string) \<Rightarrow> KEGGGenome
    \<Rightarrow> error \<Rightarrow> bool" where
  "fetch_raises el ek g e =
     (case el (kegg_identifier g) of
        Inl e' \<Rightarrow> e' = e
      | Inr p \<Rightarrow> ek (kegg_identifier g) = Inl e)"

definition http_or_ok :: "error + string \<Rightarrow> bool" where
  "http_or_ok r = (case r of Inl (HTTPError code url) \<Rightarrow> True | Inl _ \<Rightarrow> False | Inr p \<Rightarrow> True)"

definition mentions :: "string \<Rightarrow> string \<Rightarrow> bool" where
  "mentions msg x = (\<exists>a b. msg = a @ x @ b)"

subsection \<open>Example genomes, fetchers and files\<close>

definition eco :: KEGGGenome where
  "eco = \<lparr>kegg_identifier = ''eco'', kegg_name = ''Escherichia coli'',
           taxonomy_id = Some ''511145''\<rparr>"

definition xyz :: KEGGGenome where
  "xyz = \<lparr>kegg_identifier = ''xyz'', kegg_name = ''Unmapped organism'', taxonomy_id = None\<rparr>"

definition example_list_fetch :: "string \<Rightarrow> error + string" where
  "example_list_fetch ident =
     (if ident = ''hsa'' then Inr ''hsa.list''
      else if ident = ''xyz'' then Inl (HTTPError 404 ''http://rest.kegg.jp/list/pathway/xyz'')
      else if ident = ''eco'' then Inl (HTTPError 503 ''http://rest.kegg.jp/list/pathway/eco'')
      else Inl (OtherError ''URLError''))"

definition example_link_fetch :: "string \<Rightarrow> error + string" where
  "example_link_fetch ident =
     (if ident = ''hsa'' then Inr ''hsa.link''
      else Inl (HTTPError 404 (''http://rest.kegg.jp/link/pathway/'' @ ident)))"

definition example_files :: "string \<Rightarrow> string list" where
  "example_files path =
     (if path = ''hsa.list'' then [tsv_line ''path:hsa00010'' ''Glycolysis / Gluconeogenesis'']
      else if path = ''hsa.link'' then [tsv_line ''b:123'' ''path:hsa00010'']
      else [])"


section \<open>Strings\<close>

lemma strip_Nil [simp]: "strip [] = []"
  by (simp add: strip_def)

lemma strip_clean:
  assumes "s \<noteq> []" and "\<not> isspace (hd s)" and "\<not> isspace (last s)"
  shows "strip s = s"
proof -
  from assms have "dropWhile isspace s = s" by (cases s) auto
  moreover from assms have "dropWhile isspace (rev s) = rev s"
    by (cases "rev s") (auto simp: last_rev [symmetric] hd_rev simp del: last_rev)
  ultimately show ?thesis by (simp add: strip_def)
qed

lemma strip_ends:
  "strip s = [] \<or> (\<not> isspace (hd (strip s)) \<and> \<not> isspace (last (strip s)))"
proof (cases "strip s = []")
  case True
  then show ?thesis by simp
next
  case False
  define u where "u = dropWhile isspace s"
  define v where "v = dropWhile isspace (rev u)"
  have sv: "strip s = rev v" by (simp add: strip_def u_def v_def)
  with False have vne: "v \<noteq> []" by simp
  then have "\<not> isspace (hd v)" unfolding v_def by (metis hd_dropWhile)
  then have l: "\<not> isspace (last (strip s))" using vne sv by (simp add: last_rev)
  obtain w where w: "rev u = w @ v" unfolding v_def
    by (metis takeWhile_dropWhile_id)
  then have "u = rev v @ rev w" by (metis rev_append rev_rev_ident)
  then have "hd u = hd (rev v)" using vne by simp
  moreover have "u \<noteq> []" using w vne by auto
  then have "\<not> isspace (hd u)" unfolding u_def by (metis hd_dropWhile)
  ultimately show ?thesis using l sv by simp
qed

lemma strip_idem [simp]: "strip (strip s) = strip s"
proof (cases "strip s = []")
  case True
  then show ?thesis by simp
next
  case False
  with strip_ends [of s] show ?thesis by (intro strip_clean) auto
qed

lemma split_str_no_sep: "sep \<notin> set s \<Longrightarrow> split_str sep s = [s]"
  by (induction s) auto

lemma split_str_one_sep:
  "sep \<notin> set a \<Longrightarrow> sep \<notin> set b \<Longrightarrow> split_str sep (a @ sep # b) = [a, b]"
  by (induction a) (auto simp: split_str_no_sep)

section \<open>The generic map code\<close>

lemma fold_min_least: "\<forall>y\<in>set xs. (x::nat) \<le> y \<Longrightarrow> fold min xs x = x"
  by (induction xs) (auto simp: min_def)

lemma numeric_indices_ge:
  "i \<in> set (map fst (filter (\<lambda>(i, e). isnumeric e) (enumerate n s))) \<Longrightarrow> n \<le> i"
  by (auto simp: enumerate_eq_zip in_set_zip)

lemma min_of_numeric_indices:
  "\<exists>c\<in>set s. isnumeric c \<Longrightarrow>
   min_of (map fst (filter (\<lambda>(i, e). isnumeric e) (enumerate n s)))
     = Inr (n + length (takeWhile (\<lambda>c. \<not> isnumeric c) s))"
proof (induction s arbitrary: n)
  case Nil
  then show ?case by simp
next
  case (Cons c cs)
  show ?case
  proof (cases "isnumeric c")
    case True
    have "\<forall>y\<in>set (map fst (filter (\<lambda>(i, e). isnumeric e) (enumerate (Suc n) cs))). n \<le> y"
      using numeric_indices_ge [of _ "Suc n" cs] by (meson Suc_leD)
    then show ?thesis using True by (simp add: fold_min_least)
  next
    case False
    with Cons.prems have "\<exists>c\<in>set cs. isnumeric c" by auto
    from Cons.IH [OF this, of "Suc n"] False show ?thesis by simp
  qed
qed

lemma no_numeric_indices:
  "\<forall>c\<in>set s. \<not> isnumeric c \<Longrightarrow>
   map fst (filter (\<lambda>(i, e). isnumeric e) (enumerate n s)) = []"
  by (induction s arbitrary: n) auto

lemma first_numeric_digit:
  "\<exists>c\<in>set s. isnumeric c \<Longrightarrow>
   first_numeric s = Inr (length (takeWhile (\<lambda>c. \<not> isnumeric c) s))"
  unfolding first_numeric_def using min_of_numeric_indices [of s 0] by simp

lemma first_numeric_no_digit:
  "\<forall>c\<in>set s. \<not> isnumeric c \<Longrightarrow> first_numeric s = Inl ValueError_min_empty"
  unfolding first_numeric_def by (simp add: no_numeric_indices)

lemma generic_map_code_digit:
  "\<exists>c\<in>set s. isnumeric c \<Longrightarrow>
   generic_map_code s = Inr (''map'' @ dropWhile (\<lambda>c. \<not> isnumeric c) s)"
  by (simp add: generic_map_code_def first_numeric_digit dropWhile_eq_drop)

lemma generic_map_code_no_digit:
  "\<forall>c\<in>set s. \<not> isnumeric c \<Longrightarrow> generic_map_code s = Inl ValueError_min_empty"
  by (simp add: generic_map_code_def first_numeric_no_digit)

section \<open>The dictionaries of the joiner\<close>

lemma update_set:
  "kv \<in> set (AList.update k v al) \<Longrightarrow> kv = (k, v) \<or> kv \<in> set al"
  by (induction al) (auto split: if_splits)

lemma update_present:
  "distinct (map fst T) \<Longrightarrow> map_of T k = Some t \<Longrightarrow>
   AList.update k v T = map (\<lambda>(k', t'). (k', if k' = k then v else t')) T"
proof (induction T)
  case Nil
  then show ?case by simp
next
  case (Cons p T)
  show ?case
  proof (cases "fst p = k")
    case True
    with Cons.prems have "\<forall>q\<in>set T. fst q \<noteq> k" by (auto simp: image_iff)
    then have "map (\<lambda>(k', t'). (k', if k' = k then v else t')) T = T"
      by (induction T) auto
    with True show ?thesis by (cases p) simp
  next
    case False
    with Cons show ?thesis by (cases p) auto
  qed
qed

lemma filter_key_distinct:
  "distinct (map fst T) \<Longrightarrow> map_of T k = Some v \<Longrightarrow> filter (\<lambda>kv. fst kv = k) T = [(k, v)]"
proof (induction T)
  case Nil
  then show ?case by simp
next
  case (Cons p T)
  show ?case
  proof (cases "fst p = k")
    case True
    with Cons.prems have "filter (\<lambda>kv. fst kv = k) T = []"
      by (auto simp: filter_empty_conv image_iff)
    with True Cons.prems show ?thesis by (cases p) auto
  next
    case False
    with Cons show ?thesis by (cases p) auto
  qed
qed

lemma parts_of_distinct:
  "distinct (map fst M) \<Longrightarrow> parts_of M k = (case map_of M k of None \<Rightarrow> [] | Some v \<Rightarrow> v)"
proof (induction M)
  case Nil
  then show ?case by (simp add: parts_of_def)
next
  case (Cons p M)
  obtain k' v where p: "p = (k', v)" by (cases p)
  show ?case
  proof (cases "k' = k")
    case True
    with Cons.prems p have "filter (\<lambda>kv. fst kv = k) M = []"
      by (auto simp: filter_empty_conv image_iff)
    with True p show ?thesis by (simp add: parts_of_def)
  next
    case False
    with Cons p show ?thesis by (simp add: parts_of_def)
  qed
qed

lemma sort_Nil_iff: "sort (v :: string list) = [] \<longleftrightarrow> v = []"
  by (metis length_0_conv length_sort)

section \<open>The merge step\<close>

lemma append_parts_Some: "append_parts (Some t) ps = Inr (Some (with_parts t ps))"
proof (induction ps arbitrary: t)
  case Nil
  then show ?case by (simp add: with_parts_def)
next
  case (Cons p ps)
  then show ?case by (simp add: with_parts_def append_relationship_def part_edge_def)
qed

lemma append_parts_None:
  "append_parts None ps = (if ps = [] then Inr None else Inl AttributeError_None)"
  by (cases ps) auto

lemma with_parts_append: "with_parts (with_parts t ps) qs = with_parts t (ps @ qs)"
  by (simp add: with_parts_def)

lemma merge_items_Inr:
  assumes "merge_items M T w = (Inr T', w')"
    and "distinct (map fst T)"
    and "\<forall>kv\<in>set M. snd kv \<noteq> []"
  shows "T' = map (\<lambda>(k, t). (k, with_parts t (parts_of M k))) T \<and> w' = w"
  using assms
proof (induction M arbitrary: T w)
  case Nil
  then show ?case by (simp add: parts_of_def with_parts_def)
next
  case (Cons item M)
  obtain k v where item: "item = (k, v)" by (cases item)
  with Cons.prems(3) have v: "v \<noteq> []" by simp
  show ?case
  proof (cases "map_of T k")
    case None
    with Cons.prems(1) item v show ?thesis by (simp add: append_parts_None)
  next
    case (Some t)
    let ?T1 = "AList.update k (with_parts t v) T"
    from Cons.prems(1) item Some
    have m: "merge_items M ?T1 w = (Inr T', w')" by (simp add: append_parts_Some)
    have d: "distinct (map fst ?T1)" using Cons.prems(2) by (rule distinct_update)
    from Cons.IH [OF m d] Cons.prems(3)
    have r: "T' = map (\<lambda>(k, t). (k, with_parts t (parts_of M k))) ?T1" and w: "w' = w" by auto
    have T1: "?T1 = map (\<lambda>(k', t'). (k', if k' = k then with_parts t v else t')) T"
      using Cons.prems(2) Some by (rule update_present)
    have "map (\<lambda>(k, t). (k, with_parts t (parts_of M k))) ?T1
        = map (\<lambda>(k, t). (k, with_parts t (parts_of (item # M) k))) T"
      unfolding T1 map_map
    proof (rule map_cong [OF refl])
      fix p assume p: "p \<in> set T"
      obtain k' t' where p': "p = (k', t')" by (cases p)
      show "((\<lambda>(k, t). (k, with_parts t (parts_of M k))) \<circ>
              (\<lambda>(k', t'). (k', if k' = k then with_parts t v else t'))) p
          = (case p of (k, t) \<Rightarrow> (k, with_parts t (parts_of (item # M) k)))"
      proof (cases "k' = k")
        case True
        with p p' Cons.prems(2) Some have "t' = t" by (auto dest: map_of_SomeD simp: map_of_eq_Some_iff)
        with True p' item show ?thesis by (simp add: parts_of_def with_parts_append)
      next
        case False
        with p' item show ?thesis by (simp add: parts_of_def)
      qed
    qed
    with r w show ?thesis by simp
  qed
qed

section \<open>The listing and the link table\<close>

lemma listing_lines_append:
  "listing_lines g (xs @ ys) T =
     (case listing_lines g xs T of Inl e \<Rightarrow> Inl e | Inr T' \<Rightarrow> listing_lines g ys T')"
  by (induction xs arbitrary: T) (auto split: sum.splits)

lemma listing_lines_distinct:
  "listing_lines g ls T = Inr T' \<Longrightarrow> distinct (map fst T) \<Longrightarrow> distinct (map fst T')"
proof (induction ls arbitrary: T)
  case Nil
  then show ?case by simp
next
  case (Cons l ls)
  then show ?case by (auto split: sum.splits simp: distinct_update)
qed

lemma listing_lines_source:
  "listing_lines g ls T = Inr T' \<Longrightarrow> kt \<in> set T' \<Longrightarrow>
   kt \<in> set T \<or> (\<exists>l\<in>set ls. listing_line g l = Inr kt)"
proof (induction ls arbitrary: T)
  case Nil
  then show ?case by simp
next
  case (Cons l ls)
  from Cons.prems(1) obtain k t where l: "listing_line g l = Inr (k, t)"
    and r: "listing_lines g ls (AList.update k t T) = Inr T'"
    by (auto split: sum.splits)
  from Cons.IH [OF r Cons.prems(2)]
  consider "kt \<in> set (AList.update k t T)" | "\<exists>l\<in>set ls. listing_line g l = Inr kt" by blast
  then show ?case
  proof cases
    case 1
    then have "kt = (k, t) \<or> kt \<in> set T" by (rule update_set)
    with l show ?thesis by auto
  next
    case 2
    then show ?thesis by auto
  qed
qed

lemma listing_lines_other_key:
  "listing_lines g ls T = Inr T' \<Longrightarrow> \<forall>l\<in>set ls. \<forall>t. listing_line g l \<noteq> Inr (k, t) \<Longrightarrow>
   map_of T' k = map_of T k"
proof (induction ls arbitrary: T)
  case Nil
  then show ?case by simp
next
  case (Cons l ls)
  from Cons.prems(1) obtain k' t' where l: "listing_line g l = Inr (k', t')"
    and r: "listing_lines g ls (AList.update k' t' T) = Inr T'"
    by (auto split: sum.splits)
  from Cons.prems(2) l have ne: "k' \<noteq> k" by auto
  from Cons.IH [OF r] Cons.prems(2) have "map_of T' k = map_of (AList.update k' t' T) k" by simp
  with ne show ?case by (simp add: update_conv')
qed

lemma listing_lines_last:
  assumes "listing_lines g (before @ line # after) [] = Inr T"
    and "listing_line g line = Inr (k, t)"
    and "\<forall>l\<in>set after. \<forall>t'. listing_line g l \<noteq> Inr (k, t')"
  shows "map_of T k = Some t"
proof -
  from assms(1) obtain T1 where T1: "listing_lines g before [] = Inr T1"
    and r: "listing_lines g (line # after) T1 = Inr T"
    by (auto simp: listing_lines_append split: sum.splits)
  from r assms(2) have "listing_lines g after (AList.update k t T1) = Inr T" by simp
  from listing_lines_other_key [OF this assms(3)] show ?thesis by (simp add: update_conv')
qed

lemma listing_line_strip [simp]: "listing_line g (strip l) = listing_line g l"
  by (simp add: listing_line_def)

lemma listing_line_term:
  assumes "listing_line g l = Inr (k, t)"
  shows "\<exists>nm map_id. generic_map_code k = Inr map_id \<and> t = listing_term g k nm map_id"
  using assms unfolding listing_line_def
  by (auto split: list.splits sum.splits simp: Let_def)

lemma link_lines_distinct:
  "link_lines ls rv = Inr rv' \<Longrightarrow> distinct (map fst rv) \<Longrightarrow> distinct (map fst rv')"
proof (induction ls arbitrary: rv)
  case Nil
  then show ?case by simp
next
  case (Cons l ls)
  then show ?case by (auto split: sum.splits simp: distinct_update)
qed

lemma link_lines_values:
  "link_lines ls rv = Inr rv' \<Longrightarrow>
   defaultdict_get rv' k = defaultdict_get rv k @ replicate (length (filter (names_pathway k) ls)) k"
proof (induction ls arbitrary: rv)
  case Nil
  then show ?case by simp
next
  case (Cons l ls)
  from Cons.prems obtain p k' where l: "link_line l = Inr (p, k')"
    and r: "link_lines ls (AList.update k' (defaultdict_get rv k' @ [k']) rv) = Inr rv'"
    by (auto split: sum.splits)
  show ?case
  proof (cases "k' = k")
    case True
    with l have "names_pathway k l" by (simp add: names_pathway_def)
    with Cons.IH [OF r] True show ?thesis
      by (simp add: defaultdict_get_def update_conv' replicate_append_same)
  next
    case False
    with l have "\<not> names_pathway k l" by (simp add: names_pathway_def)
    with Cons.IH [OF r] False show ?thesis
      by (simp add: defaultdict_get_def update_conv')
  qed
qed

lemma link_lines_nonempty:
  "link_lines ls rv = Inr rv' \<Longrightarrow> \<forall>kv\<in>set rv. snd kv \<noteq> [] \<Longrightarrow> \<forall>kv\<in>set rv'. snd kv \<noteq> []"
proof (induction ls arbitrary: rv)
  case Nil
  then show ?case by simp
next
  case (Cons l ls)
  from Cons.prems(1) obtain p k' where l: "link_line l = Inr (p, k')"
    and r: "link_lines ls (AList.update k' (defaultdict_get rv k' @ [k']) rv) = Inr rv'"
    by (auto split: sum.splits)
  have "\<forall>kv\<in>set (AList.update k' (defaultdict_get rv k' @ [k']) rv). snd kv \<noteq> []"
    using Cons.prems(2) by (auto dest: update_set)
  from Cons.IH [OF r this] show ?case .
qed

lemma get_link_pathway_map_parts:
  assumes "get_link_pathway_map ls = Inr M"
  shows "parts_of M k = replicate (length (filter (names_pathway k) ls)) k"
    and "\<forall>kv\<in>set M. snd kv \<noteq> []"
proof -
  from assms obtain rv where rv: "link_lines ls [] = Inr rv"
    and M: "M = map (\<lambda>(k, v). (k, sort v)) rv"
    by (auto simp: get_link_pathway_map_def split: sum.splits)
  have d: "distinct (map fst rv)" using link_lines_distinct [OF rv] by simp
  have fstM: "map fst M = map fst rv" unfolding M by (induction rv) auto
  have mo: "map_of M k = map_option sort (map_of rv k)" unfolding M by (induction rv) auto
  have v: "defaultdict_get rv k = replicate (length (filter (names_pathway k) ls)) k"
    using link_lines_values [OF rv, of k] by (simp add: defaultdict_get_def)
  have "parts_of M k = sort (defaultdict_get rv k)"
    using d fstM by (simp add: parts_of_distinct mo defaultdict_get_def split: option.splits)
  also have "\<dots> = replicate (length (filter (names_pathway k) ls)) k"
    unfolding v by (simp add: sorted_sort_id sorted_replicate)
  finally show "parts_of M k = replicate (length (filter (names_pathway k) ls)) k" .
  have "\<forall>kv\<in>set rv. snd kv \<noteq> []" using link_lines_nonempty [OF rv] by simp
  then show "\<forall>kv\<in>set M. snd kv \<noteq> []" unfolding M by (auto simp: sort_Nil_iff)
qed

lemma joiner_structure:
  assumes "iter_genome_terms list_lines link g = (Inr terms, w)"
  shows "\<exists>T. listing_lines g (map strip list_lines) [] = Inr T \<and> w = [] \<and>
     terms = map (\<lambda>(k, t). with_parts t
                (replicate (length (filter (names_pathway k) link)) k)) T"
proof -
  from assms obtain T M T' where T: "listing_lines g (map strip list_lines) [] = Inr T"
    and M: "get_link_pathway_map link = Inr M"
    and m: "merge_items M T [] = (Inr T', w)"
    and t: "terms = map snd T'"
    by (auto simp: iter_genome_terms_def split: sum.splits prod.splits)
  have d: "distinct (map fst T)" using listing_lines_distinct [OF T] by simp
  from merge_items_Inr [OF m d get_link_pathway_map_parts(2) [OF M]]
  have "T' = map (\<lambda>(k, t). (k, with_parts t (parts_of M k))) T" and "w = []" by auto
  with t T show ?thesis
    by (auto simp: get_link_pathway_map_parts(1) [OF M] split_def)
qed

section \<open>The terms the joiner emits\<close>

lemma listing_term_simps:
  "reference (listing_term g k nm mid) = \<lparr>prefix = KEGG_PATHWAY_PREFIX, identifier = k, name = Some nm\<rparr>"
  "relationships (listing_term g k nm mid) =
     [(species_specific, \<lparr>prefix = KEGG_PATHWAY_PREFIX, identifier = mid, name = None\<rparr>),
      (from_kegg_species, get_reference g)]"
  "species (listing_term g k nm mid) = taxonomy_id g"
  by (simp_all add: listing_term_def Term_new_def append_relationship_def set_species_def
        Let_def split: option.splits)

lemma with_parts_simps:
  "reference (with_parts t ps) = reference t"
  "species (with_parts t ps) = species t"
  "relationships (with_parts t ps) = relationships t @ map part_edge ps"
  by (simp_all add: with_parts_def)

lemma edges_of_parts:
  "td \<noteq> has_part \<Longrightarrow> edges_of td (with_parts t ps) = edges_of td t"
  "edges_of has_part (with_parts t ps) = edges_of has_part t @ map part_edge ps"
  by (simp_all add: edges_of_def with_parts_def part_edge_def filter_empty_conv 
        filter_id_conv)

lemma emitted_term_shape:
  assumes "iter_genome_terms list_lines link g = (Inr terms, w)" and "t \<in> set terms"
  shows "\<exists>k nm map_id. generic_map_code k = Inr map_id \<and>
           t = with_parts (listing_term g k nm map_id)
                 (replicate (length (filter (names_pathway k) link)) k)"
proof -
  from joiner_structure [OF assms(1)] obtain T
    where T: "listing_lines g (map strip list_lines) [] = Inr T"
      and terms: "terms = map (\<lambda>(k, t). with_parts t
                (replicate (length (filter (names_pathway k) link)) k)) T"
    by blast
  from assms(2) terms obtain k t0 where kt: "(k, t0) \<in> set T"
    and t: "t = with_parts t0 (replicate (length (filter (names_pathway k) link)) k)"
    by auto
  from listing_lines_source [OF T kt] obtain l where "listing_line g l = Inr (k, t0)" by auto
  from listing_line_term [OF this] t show ?thesis by blast
qed

section \<open>Claims about the generic map code\<close>

text \<open>
  C6. For a pathway code with at least one numeric character, the derived generic map
  code is \<open>map\<close> followed by exactly the suffix of the code that starts at its first
  numeric character: the code with its longest prefix of non-numeric characters dropped.
  The derivation is a function of the code, so deriving twice gives the same result.
\<close>

theorem generic_map_code_suffix:
  assumes "\<exists>c\<in>set pathway_id. isnumeric c"
  shows "generic_map_code pathway_id
       = Inr (''map'' @ dropWhile (\<lambda>c. \<not> isnumeric c) pathway_id)"
  using assms by (rule generic_map_code_digit)

theorem generic_map_code_suffix_witness:
  "(\<exists>c\<in>set ''hsa00010''. isnumeric c) \<and> generic_map_code ''hsa00010'' = Inr ''map00010''"
proof -
  have h: "\<exists>c\<in>set ''hsa00010''. isnumeric c" by (simp add: isnumeric_def)
  from generic_map_code_suffix [OF h] h show ?thesis by (simp add: isnumeric_def)
qed

section \<open>Claims about the edges of the emitted terms\<close>

text \<open>
  C1. The claim is that the \<open>has_part\<close> edge of a link-table line targets the gene
  identifier of the line. On the spec's own scenario (one listing line, the genes
  \<open>b:123\<close> and \<open>b:045\<close> linked to the pathway \<open>hsa00010\<close>) the code emits two
  \<open>has_part\<close> edges that both target the pathway code \<open>hsa00010\<close>: line 62 appends
  \<open>pathway\<close> where the gene identifier \<open>protein\<close> was meant.
\<close>

theorem has_part_targets_pathway_code:
  "iter_genome_terms
     [tsv_line ''path:hsa00010'' ''Glycolysis / Gluconeogenesis'']
     [tsv_line ''b:123'' ''path:hsa00010'', tsv_line ''b:045'' ''path:hsa00010'']
     hsa
   = (Inr [\<lparr>reference = \<lparr>prefix = ''kegg.pathway'', identifier = ''hsa00010'',
                          name = Some ''Glycolysis / Gluconeogenesis''\<rparr>,
             relationships =
               [(species_specific,
                 \<lparr>prefix = ''kegg.pathway'', identifier = ''map00010'', name = None\<rparr>),
                (from_kegg_species,
                 \<lparr>prefix = ''kegg.genome'', identifier = ''hsa'', name = Some ''Homo sapiens''\<rparr>),
                (has_part, \<lparr>prefix = ''kegg.genes'', identifier = ''hsa00010'', name = None\<rparr>),
                (has_part, \<lparr>prefix = ''kegg.genes'', identifier = ''hsa00010'', name = None\<rparr>)],
             species = Some ''9606''\<rparr>],
      [])"
  by code_simp

text \<open>
  C2. The claim is that a link-table pathway code with no Term from the listing is
  reported, gets no edge and raises nothing, and that the remaining codes are still
  processed. The code writes the report and then falls through to the loop over the
  gene identifiers with \<open>term\<close> being \<open>None\<close>: the call \<open>term.append_relationship\<close>
  raises, and no Term of the genome is emitted.
\<close>

theorem unresolved_pathway_raises:
  "iter_genome_terms
     [tsv_line ''path:hsa00010'' ''Glycolysis / Gluconeogenesis'']
     [tsv_line ''b:9'' ''path:hsa00020'', tsv_line ''b:123'' ''path:hsa00010'']
     hsa
   = (Inl AttributeError_None, [''could not find kegg.pathway:hsa00020''])"
  by code_simp

text \<open>
  C7. Every Term the joiner emits has exactly one \<open>species_specific\<close> edge, to the
  reference map whose identifier is the generic map code of the Term's own identifier,
  and exactly one \<open>in_kegg_taxon\<close> edge, to the genome's Reference; its species
  attribute is the genome's taxonomy id, so it is set if and only if the genome has one.
\<close>

theorem emitted_term_edges:
  assumes "iter_genome_terms list_lines link g = (Inr terms, w)" and "t \<in> set terms"
  shows "(\<exists>map_id. generic_map_code (identifier (reference t)) = Inr map_id \<and>
            edges_of species_specific t =
              [(species_specific,
                \<lparr>prefix = KEGG_PATHWAY_PREFIX, identifier = map_id, name = None\<rparr>)])
       \<and> edges_of from_kegg_species t = [(from_kegg_species, get_reference g)]
       \<and> species t = taxonomy_id g
       \<and> (species t \<noteq> None \<longleftrightarrow> taxonomy_id g \<noteq> None)"
proof -
  from emitted_term_shape [OF assms] obtain k nm map_id
    where c: "generic_map_code k = Inr map_id"
      and t: "t = with_parts (listing_term g k nm map_id)
                 (replicate (length (filter (names_pathway k) link)) k)"
    by blast
  have "identifier (reference t) = k" by (simp add: t with_parts_simps listing_term_simps)
  moreover have "edges_of species_specific t =
      [(species_specific, \<lparr>prefix = KEGG_PATHWAY_PREFIX, identifier = map_id, name = None\<rparr>)]"
    by (simp add: t edges_of_parts) (simp add: edges_of_def listing_term_simps)
  moreover have "edges_of from_kegg_species t = [(from_kegg_species, get_reference g)]"
    by (simp add: t edges_of_parts) (simp add: edges_of_def listing_term_simps)
  moreover have "species t = taxonomy_id g"
    by (simp add: t with_parts_simps listing_term_simps)
  ultimately show ?thesis using c by simp
qed

theorem emitted_term_edges_witness:
  "iter_genome_terms [tsv_line ''path:hsa00010'' ''Glycolysis'']
       [tsv_line ''b:123'' ''path:hsa00010''] hsa
     = (Inr [hsa_term ''hsa00010'' ''Glycolysis'' ''map00010'' [''hsa00010'']], [])
   \<and> edges_of species_specific (hsa_term ''hsa00010'' ''Glycolysis'' ''map00010'' [''hsa00010''])
     = [(species_specific, \<lparr>prefix = ''kegg.pathway'', identifier = ''map00010'', name = None\<rparr>)]
   \<and> edges_of from_kegg_species (hsa_term ''hsa00010'' ''Glycolysis'' ''map00010'' [''hsa00010''])
     = [(from_kegg_species, get_reference hsa)]
   \<and> species (hsa_term ''hsa00010'' ''Glycolysis'' ''map00010'' [''hsa00010'']) = Some ''9606''"
proof -
  let ?t = "hsa_term ''hsa00010'' ''Glycolysis'' ''map00010'' [''hsa00010'']"
  have run: "iter_genome_terms [tsv_line ''path:hsa00010'' ''Glycolysis'']
       [tsv_line ''b:123'' ''path:hsa00010''] hsa = (Inr [?t], [])"
    by code_simp
  have mem: "?t \<in> set [?t]" by simp
  have code: "generic_map_code (identifier (reference ?t)) = Inr ''map00010''" by code_simp
  from emitted_term_edges [OF run mem] run code show ?thesis
    by (simp add: KEGG_PATHWAY_PREFIX_def hsa_def)
qed

text \<open>
  C3, as stated: the gene identifiers attached to one pathway are unique and in
  ascending order. The list of a pathway is sorted but never deduplicated: two
  identical lines of the link table give two equal \<open>has_part\<close> edges.
\<close>

theorem has_part_duplicates_counterexample:
  "iter_genome_terms
     [tsv_line ''path:hsa00010'' ''Glycolysis'']
     [tsv_line ''b:123'' ''path:hsa00010'', tsv_line ''b:123'' ''path:hsa00010'']
     hsa
   = (Inr [\<lparr>reference = \<lparr>prefix = ''kegg.pathway'', identifier = ''hsa00010'',
                          name = Some ''Glycolysis''\<rparr>,
             relationships =
               [(species_specific,
                 \<lparr>prefix = ''kegg.pathway'', identifier = ''map00010'', name = None\<rparr>),
                (from_kegg_species,
                 \<lparr>prefix = ''kegg.genome'', identifier = ''hsa'', name = Some ''Homo sapiens''\<rparr>),
                (has_part, \<lparr>prefix = ''kegg.genes'', identifier = ''hsa00010'', name = None\<rparr>),
                (has_part, \<lparr>prefix = ''kegg.genes'', identifier = ''hsa00010'', name = None\<rparr>)],
             species = Some ''9606''\<rparr>],
      [])
   \<and> \<not> distinct
        [(has_part, \<lparr>prefix = ''kegg.genes'', identifier = ''hsa00010'', name = None\<rparr>),
         (has_part, \<lparr>prefix = ''kegg.genes'', identifier = ''hsa00010'', name = None\<rparr>)]"
proof -
  have "iter_genome_terms
     [tsv_line ''path:hsa00010'' ''Glycolysis'']
     [tsv_line ''b:123'' ''path:hsa00010'', tsv_line ''b:123'' ''path:hsa00010'']
     hsa
   = (Inr [\<lparr>reference = \<lparr>prefix = ''kegg.pathway'', identifier = ''hsa00010'',
                          name = Some ''Glycolysis''\<rparr>,
             relationships =
               [(species_specific,
                 \<lparr>prefix = ''kegg.pathway'', identifier = ''map00010'', name = None\<rparr>),
                (from_kegg_species,
                 \<lparr>prefix = ''kegg.genome'', identifier = ''hsa'', name = Some ''Homo sapiens''\<rparr>),
                (has_part, \<lparr>prefix = ''kegg.genes'', identifier = ''hsa00010'', name = None\<rparr>),
                (has_part, \<lparr>prefix = ''kegg.genes'', identifier = ''hsa00010'', name = None\<rparr>)],
             species = Some ''9606''\<rparr>],
      [])"
    by code_simp
  then show ?thesis by simp
qed

text \<open>
  C3, amended: for every Term the joiner emits, the identifiers its \<open>has_part\<close> edges
  target are in ascending order, and the Term has one \<open>has_part\<close> edge for every line
  of the link table that names its pathway: equal lines are kept, not merged.
\<close>

theorem has_part_edges_sorted:
  assumes "iter_genome_terms list_lines link g = (Inr terms, w)" and "t \<in> set terms"
  shows "sorted (map (\<lambda>e. identifier (snd e)) (edges_of has_part t))
       \<and> length (edges_of has_part t)
           = length (filter (names_pathway (identifier (reference t))) link)"
proof -
  from emitted_term_shape [OF assms] obtain k nm map_id
    where t: "t = with_parts (listing_term g k nm map_id)
                 (replicate (length (filter (names_pathway k) link)) k)"
    by blast
  have k: "identifier (reference t) = k" by (simp add: t with_parts_simps listing_term_simps)
  have "edges_of has_part t
      = map part_edge (replicate (length (filter (names_pathway k) link)) k)"
    by (simp add: t edges_of_parts) (simp add: edges_of_def listing_term_simps)
  then show ?thesis unfolding k by (simp add: part_edge_def sorted_replicate)
qed

theorem has_part_edges_sorted_witness:
  "iter_genome_terms
       [tsv_line ''path:hsa00020'' ''Citrate cycle'', tsv_line ''path:hsa00010'' ''Glycolysis'']
       [tsv_line ''b:123'' ''path:hsa00010'', tsv_line ''b:045'' ''path:hsa00020'',
        tsv_line ''b:123'' ''path:hsa00010'']
       hsa
     = (Inr [hsa_term ''hsa00020'' ''Citrate cycle'' ''map00020'' [''hsa00020''],
             hsa_term ''hsa00010'' ''Glycolysis'' ''map00010'' [''hsa00010'', ''hsa00010'']], [])
   \<and> sorted (map (\<lambda>e. identifier (snd e))
        (edges_of has_part
           (hsa_term ''hsa00010'' ''Glycolysis'' ''map00010'' [''hsa00010'', ''hsa00010''])))
   \<and> length (edges_of has_part
        (hsa_term ''hsa00010'' ''Glycolysis'' ''map00010'' [''hsa00010'', ''hsa00010''])) = 2"
proof -
  let ?link = "[tsv_line ''b:123'' ''path:hsa00010'', tsv_line ''b:045'' ''path:hsa00020'',
        tsv_line ''b:123'' ''path:hsa00010'']"
  let ?t = "hsa_term ''hsa00010'' ''Glycolysis'' ''map00010'' [''hsa00010'', ''hsa00010'']"
  have run: "iter_genome_terms
       [tsv_line ''path:hsa00020'' ''Citrate cycle'', tsv_line ''path:hsa00010'' ''Glycolysis'']
       ?link hsa
     = (Inr [hsa_term ''hsa00020'' ''Citrate cycle'' ''map00020'' [''hsa00020''], ?t], [])"
    by code_simp
  have mem: "?t \<in> set [hsa_term ''hsa00020'' ''Citrate cycle'' ''map00020'' [''hsa00020''], ?t]"
    by simp
  have n: "length (filter (names_pathway (identifier (reference ?t))) ?link) = 2"
    by code_simp
  from has_part_edges_sorted [OF run mem] run n show ?thesis by simp
qed

section \<open>Claims about repeated pathway codes\<close>

text \<open>
  C10. When the listing holds a pathway code more than once, the Term of a later line
  replaces the Term of an earlier one in the dictionary. For the last line that carries
  a code, the output holds exactly one Term with that identifier, and it is the Term
  built from that line (its reference, name and species, and its two edges), followed
  only by \<open>has_part\<close> edges.
\<close>

theorem duplicate_listing_code_last_wins:
  assumes "iter_genome_terms (before @ line # after) link g = (Inr terms, w)"
    and "listing_line g line = Inr (k, t0)"
    and "\<forall>l\<in>set after. listing_key g l \<noteq> Some k"
  shows "\<exists>ps. filter (\<lambda>t. identifier (reference t) = k) terms
             = [t0\<lparr>relationships := relationships t0 @ map part_edge ps\<rparr>]"
proof -
  let ?f = "\<lambda>(k, t). with_parts t (replicate (length (filter (names_pathway k) link)) k)"
  from joiner_structure [OF assms(1)] obtain T
    where T: "listing_lines g (map strip before @ strip line # map strip after) [] = Inr T"
      and terms: "terms = map ?f T"
    by auto
  have d: "distinct (map fst T)" using listing_lines_distinct [OF T] by simp
  have "\<forall>l\<in>set (map strip after). \<forall>t'. listing_line g l \<noteq> Inr (k, t')"
    using assms(3) by (auto simp: listing_key_def split: sum.splits)
  from listing_lines_last [OF T _ this] assms(2) have m: "map_of T k = Some t0" by simp
  have key: "identifier (reference (?f kt)) = fst kt" if "kt \<in> set T" for kt
  proof -
    obtain k' t' where kt: "kt = (k', t')" by (cases kt)
    from listing_lines_source [OF T that [unfolded kt]] obtain l
      where "listing_line g l = Inr (k', t')" by auto
    from listing_line_term [OF this] show ?thesis
      by (auto simp: kt with_parts_simps listing_term_simps)
  qed
  have "filter (\<lambda>t. identifier (reference t) = k) terms
      = map ?f (filter (\<lambda>kt. fst kt = k) T)"
    unfolding terms filter_map using key
    by (auto simp: o_def intro!: arg_cong [where f = "map ?f"] filter_cong)
  also have "\<dots> = [?f (k, t0)]" by (simp add: filter_key_distinct [OF d m])
  finally have "filter (\<lambda>t. identifier (reference t) = k) terms
      = [t0\<lparr>relationships := relationships t0
            @ map part_edge (replicate (length (filter (names_pathway k) link)) k)\<rparr>]"
    by (simp add: with_parts_def)
  then show ?thesis by (rule exI)
qed

theorem duplicate_listing_code_last_wins_witness:
  "iter_genome_terms
       ([tsv_line ''path:hsa00010'' ''First name''] @ tsv_line ''path:hsa00010'' ''Glycolysis''
          # [tsv_line ''path:hsa00020'' ''Citrate cycle''])
       [tsv_line ''b:123'' ''path:hsa00010''] hsa
     = (Inr [hsa_term ''hsa00010'' ''Glycolysis'' ''map00010'' [''hsa00010''],
             hsa_term ''hsa00020'' ''Citrate cycle'' ''map00020'' []], [])
   \<and> listing_line hsa (tsv_line ''path:hsa00010'' ''Glycolysis'')
     = Inr (''hsa00010'', hsa_term ''hsa00010'' ''Glycolysis'' ''map00010'' [])
   \<and> (\<exists>ps. filter (\<lambda>t. identifier (reference t) = ''hsa00010'')
              [hsa_term ''hsa00010'' ''Glycolysis'' ''map00010'' [''hsa00010''],
               hsa_term ''hsa00020'' ''Citrate cycle'' ''map00020'' []]
           = [(hsa_term ''hsa00010'' ''Glycolysis'' ''map00010'' [])
                \<lparr>relationships :=
                   relationships (hsa_term ''hsa00010'' ''Glycolysis'' ''map00010'' [])
                   @ map part_edge ps\<rparr>])"
proof -
  have run: "iter_genome_terms
       ([tsv_line ''path:hsa00010'' ''First name''] @ tsv_line ''path:hsa00010'' ''Glycolysis''
          # [tsv_line ''path:hsa00020'' ''Citrate cycle''])
       [tsv_line ''b:123'' ''path:hsa00010''] hsa
     = (Inr [hsa_term ''hsa00010'' ''Glycolysis'' ''map00010'' [''hsa00010''],
             hsa_term ''hsa00020'' ''Citrate cycle'' ''map00020'' []], [])"
    by code_simp
  have line: "listing_line hsa (tsv_line ''path:hsa00010'' ''Glycolysis'')
     = Inr (''hsa00010'', hsa_term ''hsa00010'' ''Glycolysis'' ''map00010'' [])"
    by code_simp
  have "listing_key hsa (tsv_line ''path:hsa00020'' ''Citrate cycle'') \<noteq> Some ''hsa00010''"
    by code_simp
  then have after: "\<forall>l\<in>set [tsv_line ''path:hsa00020'' ''Citrate cycle''].
      listing_key hsa l \<noteq> Some ''hsa00010''"
    by simp
  from duplicate_listing_code_last_wins [OF run line after] run line show ?thesis by simp
qed

section \<open>Claims about the prefix\<close>

lemma path_prefix_length: "length ''path:'' = 5"
  by simp

lemma strip_padded:
  assumes "s \<noteq> []" and "\<not> isspace (hd s)" and "\<not> isspace (last s)"
    and "\<forall>c\<in>set pre. isspace c" and "\<forall>c\<in>set post. isspace c"
  shows "strip (pre @ s @ post) = s"
proof -
  have "dropWhile isspace (pre @ s @ post) = dropWhile isspace (s @ post)"
    by (rule dropWhile_append2) (use assms(4) in auto)
  also have "\<dots> = s @ post" using assms(1,2) by (cases s) auto
  finally have 1: "dropWhile isspace (pre @ s @ post) = s @ post" .
  have "dropWhile isspace (rev post @ rev s) = dropWhile isspace (rev s)"
    by (rule dropWhile_append2) (use assms(5) in auto)
  then have "dropWhile isspace (rev (s @ post)) = dropWhile isspace (rev s)" by simp
  also have "\<dots> = rev s" using assms(1,3)
    by (cases "rev s") (auto simp: last_rev [symmetric] hd_rev simp del: last_rev)
  finally have 2: "dropWhile isspace (rev (s @ post)) = rev s" .
  show ?thesis unfolding strip_def 1 2 by simp
qed

lemma two_fields_padded:
  assumes a: "a \<noteq> []" "tab \<notin> set a" "\<not> isspace (hd a)" "\<not> isspace (last a)"
    and b: "b \<noteq> []" "tab \<notin> set b" "\<not> isspace (hd b)" "\<not> isspace (last b)"
    and pre: "\<forall>c\<in>set pre. isspace c" and post: "\<forall>c\<in>set post. isspace c"
  shows "split_str tab (strip (pre @ a @ tab # b @ post)) = [a, b]"
    and "map strip (split_str tab (strip (pre @ a @ tab # b @ post))) = [a, b]"
proof -
  have "hd (a @ tab # b) = hd a" using a(1) by simp
  moreover have "last (a @ tab # b) = last b" using b(1) by simp
  ultimately have "strip (pre @ (a @ tab # b) @ post) = a @ tab # b"
    using a(3) b(4) pre post by (intro strip_padded) auto
  then have "strip (pre @ a @ tab # b @ post) = a @ tab # b" by simp
  then show s: "split_str tab (strip (pre @ a @ tab # b @ post)) = [a, b]"
    using a(2) b(2) by (simp add: split_str_one_sep)
  show "map strip (split_str tab (strip (pre @ a @ tab # b @ post))) = [a, b]"
    unfolding s using a b by (simp add: strip_clean)
qed

text \<open>
  C9, as stated: the first five characters of the code field are dropped whatever they
  are, and no error is raised. They are dropped, but the listing parser then looks for a
  numeric character in what is left: for the code field \<open>hsa01\<close> nothing is left,
  \<open>min\<close> raises, and the joiner emits no Term.
\<close>

theorem short_code_raises_counterexample:
  "listing_line hsa (tsv_line ''hsa01'' ''Glycolysis'') = Inl ValueError_min_empty
   \<and> iter_genome_terms [tsv_line ''hsa01'' ''Glycolysis''] [] hsa
     = (Inl ValueError_min_empty, [])"
  by code_simp

text \<open>
  C9, amended: both parsers drop the first five characters of the code field without
  looking at them. For a line of two fields (neither empty, holding a tab or starting or
  ending in white space), with any white space around the line such as its line end,
  the link-table parser stores the line under its code field less the first five
  characters and raises nothing; the listing parser builds the Term from the code field
  less the first five characters when a numeric character is left in it, and raises the
  \<open>ValueError\<close> of \<open>min\<close> when none is. Nothing requires the five characters to be
  \<open>path:\<close>.
\<close>

theorem prefix_strip_unconditional:
  assumes code: "code \<noteq> []" "tab \<notin> set code" "\<not> isspace (hd code)" "\<not> isspace (last code)"
    and other: "other \<noteq> []" "tab \<notin> set other" "\<not> isspace (hd other)" "\<not> isspace (last other)"
    and pre: "\<forall>c\<in>set pre. isspace c" and post: "\<forall>c\<in>set post. isspace c"
  shows "link_line (pre @ other @ tab # code @ post) = Inr (other, drop 5 code)
       \<and> (\<exists>v. get_link_pathway_map [pre @ other @ tab # code @ post] = Inr [(drop 5 code, v)])
       \<and> listing_line g (pre @ code @ tab # other @ post)
           = (case generic_map_code (drop 5 code) of
                Inl e \<Rightarrow> Inl e
              | Inr map_id \<Rightarrow> Inr (drop 5 code, listing_term g (drop 5 code) other map_id))
       \<and> ((\<exists>c\<in>set (drop 5 code). isnumeric c) \<longrightarrow>
            (\<exists>t. iter_genome_terms [pre @ code @ tab # other @ post] [] g = (Inr [t], [])
                \<and> identifier (reference t) = drop 5 code))
       \<and> ((\<forall>c\<in>set (drop 5 code). \<not> isnumeric c) \<longrightarrow>
            listing_line g (pre @ code @ tab # other @ post) = Inl ValueError_min_empty
          \<and> iter_genome_terms [pre @ code @ tab # other @ post] [] g
              = (Inl ValueError_min_empty, []))"
proof -
  let ?link = "pre @ other @ tab # code @ post"
  let ?list = "pre @ code @ tab # other @ post"
  have l: "link_line ?link = Inr (other, drop 5 code)"
    unfolding link_line_def path_prefix_length
    using two_fields_padded(1) [OF other code pre post] by simp
  have m: "\<exists>v. get_link_pathway_map [?link] = Inr [(drop 5 code, v)]"
    using l by (simp add: get_link_pathway_map_def)
  have p: "listing_line g ?list
           = (case generic_map_code (drop 5 code) of
                Inl e \<Rightarrow> Inl e
              | Inr map_id \<Rightarrow> Inr (drop 5 code, listing_term g (drop 5 code) other map_id))"
    unfolding listing_line_def path_prefix_length
    using two_fields_padded(2) [OF code other pre post] by (simp add: Let_def)
  have j: "\<exists>t. iter_genome_terms [?list] [] g = (Inr [t], [])
                \<and> identifier (reference t) = drop 5 code"
    if "\<exists>c\<in>set (drop 5 code). isnumeric c"
  proof -
    from generic_map_code_digit [OF that] obtain map_id
      where "generic_map_code (drop 5 code) = Inr map_id" by blast
    with p have "listing_line g ?list
        = Inr (drop 5 code, listing_term g (drop 5 code) other map_id)" by simp
    then have "iter_genome_terms [?list] [] g
        = (Inr [listing_term g (drop 5 code) other map_id], [])"
      by (simp add: iter_genome_terms_def get_link_pathway_map_def)
    then show ?thesis by (simp add: listing_term_simps)
  qed
  have f: "listing_line g ?list = Inl ValueError_min_empty
          \<and> iter_genome_terms [?list] [] g = (Inl ValueError_min_empty, [])"
    if "\<forall>c\<in>set (drop 5 code). \<not> isnumeric c"
  proof -
    from generic_map_code_no_digit [OF that] p
    have e: "listing_line g ?list = Inl ValueError_min_empty" by simp
    then have "iter_genome_terms [?list] [] g = (Inl ValueError_min_empty, [])"
      by (simp add: iter_genome_terms_def)
    with e show ?thesis by simp
  qed
  from l m p j f show ?thesis by blast
qed

theorem prefix_strip_unconditional_witness:
  "link_line (tsv_line ''b:123'' ''hsa00010'') = Inr (''b:123'', ''010'')
   \<and> (\<exists>v. get_link_pathway_map [tsv_line ''b:123'' ''hsa00010''] = Inr [(''010'', v)])
   \<and> listing_line hsa (tsv_line ''hsa00010'' ''Glycolysis'')
       = Inr (''010'', listing_term hsa ''010'' ''Glycolysis'' ''map010'')
   \<and> (\<exists>t. iter_genome_terms [tsv_line ''hsa00010'' ''Glycolysis''] [] hsa = (Inr [t], [])
          \<and> identifier (reference t) = ''010'')
   \<and> link_line (tsv_line ''b:123'' ''hsa01'') = Inr (''b:123'', [])
   \<and> iter_genome_terms [tsv_line ''hsa01'' ''Glycolysis''] [] hsa
       = (Inl ValueError_min_empty, [])"
proof -
  have code: "''hsa00010'' \<noteq> []" "tab \<notin> set ''hsa00010''" "\<not> isspace (hd ''hsa00010'')"
      "\<not> isspace (last ''hsa00010'')"
    by (simp_all add: tab_def isspace_def)
  have short: "''hsa01'' \<noteq> []" "tab \<notin> set ''hsa01''" "\<not> isspace (hd ''hsa01'')"
      "\<not> isspace (last ''hsa01'')"
    by (simp_all add: tab_def isspace_def)
  have gene: "''b:123'' \<noteq> []" "tab \<notin> set ''b:123''" "\<not> isspace (hd ''b:123'')"
      "\<not> isspace (last ''b:123'')"
    by (simp_all add: tab_def isspace_def)
  have nm: "''Glycolysis'' \<noteq> []" "tab \<notin> set ''Glycolysis''" "\<not> isspace (hd ''Glycolysis'')"
      "\<not> isspace (last ''Glycolysis'')"
    by (simp_all add: tab_def isspace_def)
  have pre: "\<forall>c\<in>set []. isspace c" by simp
  have post: "\<forall>c\<in>set [CHR 0x0A]. isspace c" by (simp add: isspace_def)
  have d: "\<exists>c\<in>set (drop 5 ''hsa00010''). isnumeric c" by (simp add: isnumeric_def)
  have n: "\<forall>c\<in>set (drop 5 ''hsa01''). \<not> isnumeric c" by simp
  have c: "generic_map_code ''010'' = Inr ''map010''" by code_simp
  note a = prefix_strip_unconditional [OF code gene pre post, of hsa]
  note b = prefix_strip_unconditional [OF code nm pre post, of hsa]
  note s = prefix_strip_unconditional [OF short gene pre post, of hsa]
  note t = prefix_strip_unconditional [OF short nm pre post, of hsa]
  have 1: "link_line (tsv_line ''b:123'' ''hsa00010'') = Inr (''b:123'', ''010'')"
    using a [THEN conjunct1] by (simp add: tsv_line_def)
  have 2: "\<exists>v. get_link_pathway_map [tsv_line ''b:123'' ''hsa00010''] = Inr [(''010'', v)]"
    using a [THEN conjunct2, THEN conjunct1] by (simp add: tsv_line_def)
  have 3: "listing_line hsa (tsv_line ''hsa00010'' ''Glycolysis'')
       = Inr (''010'', listing_term hsa ''010'' ''Glycolysis'' ''map010'')"
    using b [THEN conjunct2, THEN conjunct2, THEN conjunct1] c by (simp add: tsv_line_def)
  have 4: "\<exists>t. iter_genome_terms [tsv_line ''hsa00010'' ''Glycolysis''] [] hsa = (Inr [t], [])
          \<and> identifier (reference t) = ''010''"
    using b [THEN conjunct2, THEN conjunct2, THEN conjunct2, THEN conjunct1, THEN mp, OF d]
    by (simp add: tsv_line_def)
  have 5: "link_line (tsv_line ''b:123'' ''hsa01'') = Inr (''b:123'', [])"
    using s [THEN conjunct1] by (simp add: tsv_line_def)
  have 6: "iter_genome_terms [tsv_line ''hsa01'' ''Glycolysis''] [] hsa
       = (Inl ValueError_min_empty, [])"
    using t [THEN conjunct2, THEN conjunct2, THEN conjunct2, THEN conjunct2, THEN mp, OF n]
    by (simp add: tsv_line_def)
  from 1 2 3 4 5 6 show ?thesis by (intro conjI)
qed

section \<open>Claims about the driver and the assembler\<close>

lemma genomes_terms_paths:
  "(\<exists>n. yielded (iter_genomes_terms el ek rd gs)
        = concat (map (joiner_terms rd) (take n (yielded (iter_kegg_pathway_paths el ek gs)))))
   \<and> (raised (iter_genomes_terms el ek rd gs) = None \<longrightarrow>
        yielded (iter_genomes_terms el ek rd gs)
        = concat (map (joiner_terms rd) (yielded (iter_kegg_pathway_paths el ek gs))))"
proof (induction gs)
  case Nil
  then show ?case by simp
next
  case (Cons g gs)
  let ?P = "iter_kegg_pathway_paths el ek gs"
  let ?R = "iter_genomes_terms el ek rd gs"
  from Cons.IH have all: "raised ?R = None \<longrightarrow>
      yielded ?R = concat (map (joiner_terms rd) (yielded ?P))"
    by (rule conjunct2)
  from Cons.IH [THEN conjunct1] obtain n
    where n: "yielded ?R = concat (map (joiner_terms rd) (take n (yielded ?P)))"
    by (rule exE)
  show ?case
  proof (cases "paths_of_genome el ek g")
    case (Raise e)
    then show ?thesis by (auto intro: exI [of _ 0])
  next
    case (Skip msgs)
    with n all show ?thesis by (auto simp: Let_def)
  next
    case (Yield paths)
    obtain kg lp kp where paths: "paths = (kg, lp, kp)" by (cases paths)
    show ?thesis
    proof (cases "fst (iter_genome_terms (rd lp) (rd kp) kg)")
      case (Inl e)
      then obtain msgs where "iter_genome_terms (rd lp) (rd kp) kg = (Inl e, msgs)"
        by (cases "iter_genome_terms (rd lp) (rd kp) kg") auto
      with Yield paths show ?thesis by (auto intro: exI [of _ 0])
    next
      case (Inr terms)
      then obtain msgs where j: "iter_genome_terms (rd lp) (rd kp) kg = (Inr terms, msgs)"
        by (cases "iter_genome_terms (rd lp) (rd kp) kg") auto
      then have jt: "joiner_terms rd (kg, lp, kp) = terms"
        by (simp add: joiner_terms_def terms_of_def)
      have "yielded (iter_genomes_terms el ek rd (g # gs))
          = concat (map (joiner_terms rd)
              (take (Suc n) (yielded (iter_kegg_pathway_paths el ek (g # gs)))))"
        using Yield paths j jt n by (simp add: Let_def)
      moreover have "raised (iter_genomes_terms el ek rd (g # gs)) = None \<longrightarrow>
          yielded (iter_genomes_terms el ek rd (g # gs))
          = concat (map (joiner_terms rd) (yielded (iter_kegg_pathway_paths el ek (g # gs))))"
        using Yield paths j jt all by (simp add: Let_def)
      ultimately show ?thesis by blast
    qed
  qed
qed

lemma str_nat_503: "str_nat 503 = ''503''"
  by (simp add: str_nat.simps [of 503] str_nat.simps [of 50] str_nat.simps [of 5] digit_char_def)

lemma eco_paths:
  "paths_of_genome example_list_fetch example_link_fetch eco
   = Skip [''[HTTP 503] Error downloading eco (Escherichia coli; taxonomy:511145): http://rest.kegg.jp/list/pathway/eco'']"
  by (simp add: paths_of_genome_def example_list_fetch_def eco_def download_message_def
        str_nat_503)

lemma xyz_paths: "paths_of_genome example_list_fetch example_link_fetch xyz = Skip []"
  by (simp add: paths_of_genome_def example_list_fetch_def xyz_def)

lemma hsa_paths:
  "paths_of_genome example_list_fetch example_link_fetch hsa = Yield (hsa, ''hsa.list'', ''hsa.link'')"
  by (simp add: paths_of_genome_def example_list_fetch_def example_link_fetch_def hsa_def)

lemma hsa_files:
  "iter_genome_terms (example_files ''hsa.list'') (example_files ''hsa.link'') hsa
   = (Inr [hsa_term ''hsa00010'' ''Glycolysis / Gluconeogenesis'' ''map00010'' [''hsa00010'']], [])"
  by code_simp

text \<open>
  C8. The sequence \<open>iter_terms\<close> yields starts with the Terms of the map loader and
  goes on with the Terms of the joiner for the triples the driver yields, genome after
  genome; when no exception ends the run it is the whole concatenation. The map loader
  gives one Term per entry of the catalog, in the catalog's order, each with the entry's
  identifier and name, no relationship and no species.
\<close>

theorem iter_terms_concatenation:
  "(\<exists>n. yielded (iter_terms catalog el ek rd gs)
        = iter_map_terms catalog
          @ concat (map (joiner_terms rd) (take n (yielded (iter_kegg_pathway_paths el ek gs)))))
   \<and> (raised (iter_terms catalog el ek rd gs) = None \<longrightarrow>
        yielded (iter_terms catalog el ek rd gs)
        = iter_map_terms catalog
          @ concat (map (joiner_terms rd) (yielded (iter_kegg_pathway_paths el ek gs))))
   \<and> iter_map_terms catalog
        = map (\<lambda>(ident, nm).
                 \<lparr>reference = \<lparr>prefix = KEGG_PATHWAY_PREFIX, identifier = ident, name = Some nm\<rparr>,
                  relationships = [], species = None\<rparr>) catalog"
  using genomes_terms_paths [of el ek rd gs]
  by (auto simp: iter_terms_def Let_def iter_map_terms_def Term_new_def)

theorem iter_terms_concatenation_witness:
  "raised (iter_terms [(''map00010'', ''Glycolysis'')] example_list_fetch example_link_fetch
             example_files [xyz, hsa]) = None
   \<and> yielded (iter_terms [(''map00010'', ''Glycolysis'')] example_list_fetch example_link_fetch
             example_files [xyz, hsa])
     = [\<lparr>reference = \<lparr>prefix = ''kegg.pathway'', identifier = ''map00010'',
                       name = Some ''Glycolysis''\<rparr>,
          relationships = [], species = None\<rparr>,
        hsa_term ''hsa00010'' ''Glycolysis / Gluconeogenesis'' ''map00010'' [''hsa00010'']]"
proof -
  let ?r = "iter_terms [(''map00010'', ''Glycolysis'')] example_list_fetch example_link_fetch
             example_files [xyz, hsa]"
  have r: "raised ?r = None"
    by (simp add: iter_terms_def xyz_paths hsa_paths hsa_files)
  have m: "iter_map_terms [(''map00010'', ''Glycolysis'')]
      = [\<lparr>reference = \<lparr>prefix = ''kegg.pathway'', identifier = ''map00010'',
                       name = Some ''Glycolysis''\<rparr>,
          relationships = [], species = None\<rparr>]"
    by (simp add: iter_map_terms_def Term_new_def KEGG_PATHWAY_PREFIX_def)
  have j: "concat (map (joiner_terms example_files)
        (yielded (iter_kegg_pathway_paths example_list_fetch example_link_fetch [xyz, hsa])))
      = [hsa_term ''hsa00010'' ''Glycolysis / Gluconeogenesis'' ''map00010'' [''hsa00010'']]"
    by (simp add: xyz_paths hsa_paths joiner_terms_def terms_of_def hsa_files)
  note cat = iter_terms_concatenation [of "[(''map00010'', ''Glycolysis'')]" example_list_fetch
         example_link_fetch example_files "[xyz, hsa]"]
  from cat [THEN conjunct2, THEN conjunct1, rule_format, OF r] have "yielded ?r
      = iter_map_terms [(''map00010'', ''Glycolysis'')]
        @ concat (map (joiner_terms example_files)
            (yielded (iter_kegg_pathway_paths example_list_fetch example_link_fetch [xyz, hsa])))" .
  then have "yielded ?r
      = [\<lparr>reference = \<lparr>prefix = ''kegg.pathway'', identifier = ''map00010'',
                       name = Some ''Glycolysis''\<rparr>,
          relationships = [], species = None\<rparr>,
        hsa_term ''hsa00010'' ''Glycolysis / Gluconeogenesis'' ''map00010'' [''hsa00010'']]"
    unfolding m j by simp
  with r show ?thesis by (intro conjI)
qed

lemma download_message_shape:
  "download_message code url g =
     ''[HTTP '' @ str_nat code @ ''] Error downloading '' @ kegg_identifier g @ '' (''
       @ kegg_name g @ (case taxonomy_id g of None \<Rightarrow> [] | Some tax \<Rightarrow> ''; taxonomy:'' @ tax)
       @ ''): '' @ url"
  by (simp add: download_message_def Let_def split: option.splits)

lemma mentionsI: "msg = a @ x @ b \<Longrightarrow> mentions msg x"
  unfolding mentions_def by blast

lemma download_message_mentions_code:
  "mentions (download_message code url g) (str_nat code)"
  by (rule mentionsI [where a = "''[HTTP ''"
        and b = "''] Error downloading '' @ kegg_identifier g @ '' ('' @ kegg_name g
                 @ (case taxonomy_id g of None \<Rightarrow> [] | Some tax \<Rightarrow> ''; taxonomy:'' @ tax)
                 @ ''): '' @ url"])
     (simp add: download_message_shape)

lemma download_message_mentions_identifier:
  "mentions (download_message code url g) (kegg_identifier g)"
  by (rule mentionsI [where a = "''[HTTP '' @ str_nat code @ ''] Error downloading ''"
        and b = "'' ('' @ kegg_name g
                 @ (case taxonomy_id g of None \<Rightarrow> [] | Some tax \<Rightarrow> ''; taxonomy:'' @ tax)
                 @ ''): '' @ url"])
     (simp add: download_message_shape)

lemma download_message_mentions_name:
  "mentions (download_message code url g) (kegg_name g)"
  by (rule mentionsI [where a = "''[HTTP '' @ str_nat code @ ''] Error downloading ''
                 @ kegg_identifier g @ '' (''"
        and b = "(case taxonomy_id g of None \<Rightarrow> [] | Some tax \<Rightarrow> ''; taxonomy:'' @ tax)
                 @ ''): '' @ url"])
     (simp add: download_message_shape)

lemma download_message_mentions_url:
  "mentions (download_message code url g) url"
  by (rule mentionsI [where a = "''[HTTP '' @ str_nat code @ ''] Error downloading ''
                 @ kegg_identifier g @ '' ('' @ kegg_name g
                 @ (case taxonomy_id g of None \<Rightarrow> [] | Some tax \<Rightarrow> ''; taxonomy:'' @ tax)
                 @ ''): ''"
        and b = "[]"])
     (simp add: download_message_shape)

lemma download_message_mentions_taxonomy:
  "taxonomy_id g = Some tax \<Longrightarrow> mentions (download_message code url g) tax"
  by (rule mentionsI [where a = "''[HTTP '' @ str_nat code @ ''] Error downloading ''
                 @ kegg_identifier g @ '' ('' @ kegg_name g @ ''; taxonomy:''"
        and b = "''): '' @ url"])
     (simp add: download_message_shape)

lemmas download_message_mentions =
  download_message_mentions_code download_message_mentions_identifier
  download_message_mentions_name download_message_mentions_url
  download_message_mentions_taxonomy

lemma paths_of_genome_raises:
  assumes "fetch_raises el ek g e"
  shows "paths_of_genome el ek g = except_HTTPError e g"
  using assms by (auto simp: fetch_raises_def paths_of_genome_def split: sum.splits)

lemma paths_of_genome_http:
  assumes "http_or_ok (el (kegg_identifier g))" and "http_or_ok (ek (kegg_identifier g))"
  shows "\<forall>e. paths_of_genome el ek g \<noteq> Raise e"
  using assms
  by (auto simp: http_or_ok_def paths_of_genome_def split: sum.splits error.splits)

lemma paths_run:
  assumes "\<forall>g\<in>set genomes. \<forall>e. paths_of_genome el ek g \<noteq> Raise e"
  shows "raised (iter_kegg_pathway_paths el ek genomes) = None
       \<and> yielded (iter_kegg_pathway_paths el ek genomes) = concat (map (yield_of el ek) genomes)
       \<and> written (iter_kegg_pathway_paths el ek genomes) = concat (map (report_of el ek) genomes)"
  using assms
proof (induction genomes)
  case Nil
  then show ?case by simp
next
  case (Cons g genomes)
  then show ?case
    by (cases "paths_of_genome el ek g") (auto simp: Let_def yield_of_def report_of_def)
qed

text \<open>
  C5, as stated: no failure of a per-genome fetch ever aborts the run. The handler
  catches \<open>urllib.error.HTTPError\<close> only: an exception of another class, such as the
  \<open>URLError\<close> of a failed connection, leaves the generator, and the genomes after it
  are never fetched.
\<close>

theorem non_http_error_aborts_counterexample:
  "iter_kegg_pathway_paths example_list_fetch example_link_fetch
     [\<lparr>kegg_identifier = ''net'', kegg_name = ''Unreachable organism'', taxonomy_id = None\<rparr>, hsa]
   = \<lparr>yielded = [], written = [], raised = Some (OtherError ''URLError'')\<rparr>"
  by (simp add: paths_of_genome_def example_list_fetch_def)

text \<open>
  C5, amended: when every failed fetch of the run raises an \<open>HTTPError\<close>, the driver
  raises nothing and handles every genome in turn. A genome whose fetch raises status
  404 yields nothing and writes nothing; a genome whose fetch raises another status
  yields nothing and writes one message that includes the genome's code, its display
  name, its taxonomy id when it has one, and the URL of the failed request; a genome
  whose two fetches succeed yields its triple.
\<close>

theorem http_errors_recovered:
  assumes "\<forall>g\<in>set genomes.
             http_or_ok (el (kegg_identifier g)) \<and> http_or_ok (ek (kegg_identifier g))"
  shows "raised (iter_kegg_pathway_paths el ek genomes) = None
       \<and> yielded (iter_kegg_pathway_paths el ek genomes) = concat (map (yield_of el ek) genomes)
       \<and> written (iter_kegg_pathway_paths el ek genomes) = concat (map (report_of el ek) genomes)
       \<and> (\<forall>g\<in>set genomes. \<forall>code url. fetch_raises el ek g (HTTPError code url) \<longrightarrow>
             yield_of el ek g = []
           \<and> (code = 404 \<longrightarrow> report_of el ek g = [])
           \<and> (code \<noteq> 404 \<longrightarrow>
                report_of el ek g = [download_message code url g]
              \<and> mentions (download_message code url g) (kegg_identifier g)
              \<and> mentions (download_message code url g) (kegg_name g)
              \<and> mentions (download_message code url g) url
              \<and> (\<forall>tax. taxonomy_id g = Some tax \<longrightarrow>
                    mentions (download_message code url g) tax)))
       \<and> (\<forall>g\<in>set genomes. \<forall>p q.
             el (kegg_identifier g) = Inr p \<and> ek (kegg_identifier g) = Inr q \<longrightarrow>
             yield_of el ek g = [(g, p, q)] \<and> report_of el ek g = [])"
proof -
  have "\<forall>g\<in>set genomes. \<forall>e. paths_of_genome el ek g \<noteq> Raise e"
    using assms paths_of_genome_http by blast
  from paths_run [OF this] have run: "raised (iter_kegg_pathway_paths el ek genomes) = None
       \<and> yielded (iter_kegg_pathway_paths el ek genomes) = concat (map (yield_of el ek) genomes)
       \<and> written (iter_kegg_pathway_paths el ek genomes) = concat (map (report_of el ek) genomes)" .
  have http: "yield_of el ek g = []
           \<and> (code = 404 \<longrightarrow> report_of el ek g = [])
           \<and> (code \<noteq> 404 \<longrightarrow>
                report_of el ek g = [download_message code url g]
              \<and> mentions (download_message code url g) (kegg_identifier g)
              \<and> mentions (download_message code url g) (kegg_name g)
              \<and> mentions (download_message code url g) url
              \<and> (\<forall>tax. taxonomy_id g = Some tax \<longrightarrow>
                    mentions (download_message code url g) tax))"
    if "fetch_raises el ek g (HTTPError code url)" for g code url
    using paths_of_genome_raises [OF that]
    by (simp add: yield_of_def report_of_def download_message_mentions)
  have ok: "yield_of el ek g = [(g, p, q)] \<and> report_of el ek g = []"
    if "el (kegg_identifier g) = Inr p \<and> ek (kegg_identifier g) = Inr q" for g p q
    using that by (simp add: yield_of_def report_of_def paths_of_genome_def)
  from run http ok show ?thesis by blast
qed

theorem http_errors_recovered_witness:
  "raised (iter_kegg_pathway_paths example_list_fetch example_link_fetch [eco, xyz, hsa]) = None
   \<and> yielded (iter_kegg_pathway_paths example_list_fetch example_link_fetch [eco, xyz, hsa])
     = [(hsa, ''hsa.list'', ''hsa.link'')]
   \<and> written (iter_kegg_pathway_paths example_list_fetch example_link_fetch [eco, xyz, hsa])
     = [''[HTTP 503] Error downloading eco (Escherichia coli; taxonomy:511145): http://rest.kegg.jp/list/pathway/eco'']
   \<and> fetch_raises example_list_fetch example_link_fetch eco
        (HTTPError 503 ''http://rest.kegg.jp/list/pathway/eco'')
   \<and> fetch_raises example_list_fetch example_link_fetch xyz
        (HTTPError 404 ''http://rest.kegg.jp/list/pathway/xyz'')
   \<and> mentions (download_message 503 ''http://rest.kegg.jp/list/pathway/eco'' eco) ''511145''"
proof -
  have h: "\<forall>g\<in>set [eco, xyz, hsa].
      http_or_ok (example_list_fetch (kegg_identifier g))
    \<and> http_or_ok (example_link_fetch (kegg_identifier g))"
    by (simp add: eco_def xyz_def hsa_def example_list_fetch_def example_link_fetch_def
          http_or_ok_def)
  have y: "concat (map (yield_of example_list_fetch example_link_fetch) [eco, xyz, hsa])
      = [(hsa, ''hsa.list'', ''hsa.link'')]"
    by (simp add: yield_of_def eco_paths xyz_paths hsa_paths)
  have w: "concat (map (report_of example_list_fetch example_link_fetch) [eco, xyz, hsa])
      = [''[HTTP 503] Error downloading eco (Escherichia coli; taxonomy:511145): http://rest.kegg.jp/list/pathway/eco'']"
    by (simp add: report_of_def eco_paths xyz_paths hsa_paths)
  have r1: "fetch_raises example_list_fetch example_link_fetch eco
        (HTTPError 503 ''http://rest.kegg.jp/list/pathway/eco'')"
    by (simp add: fetch_raises_def example_list_fetch_def eco_def)
  have r2: "fetch_raises example_list_fetch example_link_fetch xyz
        (HTTPError 404 ''http://rest.kegg.jp/list/pathway/xyz'')"
    by (simp add: fetch_raises_def example_list_fetch_def xyz_def)
  have t: "taxonomy_id eco = Some ''511145''" by (simp add: eco_def)
  have e: "eco \<in> set [eco, xyz, hsa]" by simp
  note run = http_errors_recovered [OF h]
  note eco_case = run [THEN conjunct2, THEN conjunct2, THEN conjunct2, THEN conjunct1,
      rule_format, OF e r1]
  have m: "mentions (download_message 503 ''http://rest.kegg.jp/list/pathway/eco'' eco) ''511145''"
    using eco_case t by simp
  from run [THEN conjunct1] run [THEN conjunct2, THEN conjunct1]
    run [THEN conjunct2, THEN conjunct2, THEN conjunct1] r1 r2 m
  show ?thesis unfolding y w by (intro conjI)
qed

section \<open>Claims about a code with no numeric character\<close>





end
